theory Spec2Isabelle
  imports Main
begin

section \<open>Personal Notes Organizer: the note and category state model of App.js\<close>

text \<open>
  The development embeds the state-management part of \<^verbatim>\<open>src/notes_frontend/src/App.js\<close>:
  the data helpers \<^verbatim>\<open>createNote\<close> and \<^verbatim>\<open>sortNotesByUpdatedAtDesc\<close>, the derived list
  \<^verbatim>\<open>filteredNotes\<close>, and the handlers of the \<^verbatim>\<open>App\<close> component. React state
  (\<^verbatim>\<open>useState\<close>) is an explicit record that every handler takes and returns. The wall clock
  \<^verbatim>\<open>Date.now()\<close> is a function from the number of reads made so far to the value read, so
  that two reads in a row may differ, as they may in the browser.

  JavaScript strings are modelled as \<^typ>\<open>string\<close>: a character stands for the code unit
  of the same number, so the strings of the model are those whose code units lie in the range
  U+0000 to U+00FF. \<^verbatim>\<open>trim\<close> and \<^verbatim>\<open>toLowerCase\<close> are the host functions on that
  range. Timestamps are unbounded integers.
\<close>

subsection \<open>String primitives of the host language\<close>

text \<open>
  The white space and line terminators that \<^verbatim>\<open>String.prototype.trim\<close> strips, as far as
  they lie in the range: TAB, LF, VT, FF, CR, SPACE and the no-break space U+00A0.
\<close>

definition isWhiteSpace :: "char \<Rightarrow> bool" where
  "isWhiteSpace c =
     (c \<in> set [CHR 0x09, CHR 0x0A, CHR 0x0B, CHR 0x0C, CHR 0x0D, CHR '' '', CHR 0xA0])"

definition trim :: "string \<Rightarrow> string" where
  "trim s = rev (dropWhile isWhiteSpace (rev (dropWhile isWhiteSpace s)))"

text \<open>
  \<^verbatim>\<open>String.prototype.toLowerCase\<close> on the range: the letters A to Z (U+0041 to U+005A) and
  the letters U+00C0 to U+00DE, the multiplication sign U+00D7 apart, move up by 32; every
  other code unit of the range is its own lower case.
\<close>

definition lowerChar :: "char \<Rightarrow> char" where
  "lowerChar c =
     (if (65 \<le> (of_char c :: nat) \<and> (of_char c :: nat) \<le> 90)
         \<or> (192 \<le> (of_char c :: nat) \<and> (of_char c :: nat) \<le> 222
             \<and> (of_char c :: nat) \<noteq> 215)
      then char_of ((of_char c :: nat) + 32) else c)"

definition toLowerCase :: "string \<Rightarrow> string" where
  "toLowerCase s = map lowerChar s"

fun startsWith :: "string \<Rightarrow> string \<Rightarrow> bool" where
  "startsWith s [] = True"
| "startsWith [] (q # qs) = False"
| "startsWith (c # cs) (q # qs) = (c = q \<and> startsWith cs qs)"

text \<open>\<^verbatim>\<open>s.includes(q)\<close>: \<open>q\<close> occurs in \<open>s\<close> as a contiguous substring.\<close>

fun includes_str :: "string \<Rightarrow> string \<Rightarrow> bool" where
  "includes_str [] q = (q = [])"
| "includes_str (c # cs) q = (startsWith (c # cs) q \<or> includes_str cs q)"

text \<open>
  Decimal rendering of an integer inside a template literal. The host renders an integer
  this way when its magnitude is below ten to the power 21, which covers every time value
  (at most 8640000000000000 milliseconds from the epoch).
\<close>

fun nat_to_string :: "nat \<Rightarrow> string" where
  "nat_to_string n =
     (if n < 10 then [char_of (48 + n)]
      else nat_to_string (n div 10) @ [char_of (48 + n mod 10)])"

declare nat_to_string.simps [simp del]

definition number_to_string :: "int \<Rightarrow> string" where
  "number_to_string i =
     (if i < 0 then CHR ''-'' # nat_to_string (nat (- i)) else nat_to_string (nat i))"

subsection \<open>Data model\<close>

record Note =
  note_id :: string
  title :: string
  content :: string
  category :: string
  createdAt :: int
  updatedAt :: int
  archived :: bool

text \<open>
  The object handed to \<^verbatim>\<open>handleUpdateNote\<close> and spread over the note: every property of a
  note may be present in it or absent.
\<close>

record fields =
  set_id :: "string option"
  set_title :: "string option"
  set_content :: "string option"
  set_category :: "string option"
  set_createdAt :: "int option"
  set_updatedAt :: "int option"
  set_archived :: "bool option"

definition DEFAULT_CATEGORIES :: "string list" where
  "DEFAULT_CATEGORIES = [''All Notes'', ''Personal'', ''Work'', ''Ideas'', ''Archive'']"

text \<open>
  The state of the \<^verbatim>\<open>App\<close> component. \<open>ticks\<close> counts the reads of the clock made so
  far; it is the only part that is not a \<^verbatim>\<open>useState\<close> cell.
\<close>

record app =
  categories :: "string list"
  activeCategory :: string
  newCategoryName :: string
  notes_list :: "Note list"
  searchQuery :: string
  selectedNoteId :: "string option"
  ticks :: nat

type_synonym clock = "nat \<Rightarrow> int"

definition Date_now :: "clock \<Rightarrow> nat \<Rightarrow> int \<times> nat" where
  "Date_now clk k = (clk k, Suc k)"

text \<open>
  The state after mounting with an empty local storage: \<^verbatim>\<open>loadFromStorage\<close> returns its
  fallback for the categories and for the notes.
\<close>

definition initial :: app where
  "initial = \<lparr>categories = DEFAULT_CATEGORIES, activeCategory = ''All Notes'',
     newCategoryName = '''', notes_list = [], searchQuery = '''', selectedNoteId = None,
     ticks = 0\<rparr>"

subsection \<open>Data helpers\<close>

text \<open>
  The environment of \<^verbatim>\<open>createNote\<close>: either \<^verbatim>\<open>crypto.randomUUID\<close> exists and returns
  the given string, or it does not and \<^verbatim>\<open>Math.random()\<close> renders as the given string.
\<close>

datatype crypto = RandomUUID string | NoRandomUUID string

text \<open>
  \<^verbatim>\<open>createNote({ title = '', content = '', category = 'Personal' })\<close>; an absent property
  is \<open>None\<close>. The object literal evaluates \<^verbatim>\<open>id\<close>, then \<^verbatim>\<open>createdAt\<close>, then
  \<^verbatim>\<open>updatedAt\<close>, each with its own read of the clock.
\<close>

definition createNote ::
  "clock \<Rightarrow> crypto \<Rightarrow> string option \<Rightarrow> string option \<Rightarrow> string option \<Rightarrow> nat \<Rightarrow> Note \<times> nat"
where
  "createNote clk cr title_arg content_arg category_arg k =
     (let t = (case title_arg of None \<Rightarrow> '''' | Some x \<Rightarrow> x);
          c = (case content_arg of None \<Rightarrow> '''' | Some x \<Rightarrow> x);
          cat = (case category_arg of None \<Rightarrow> ''Personal'' | Some x \<Rightarrow> x);
          (i, k1) = (case cr of
                       RandomUUID u \<Rightarrow> (u, k)
                     | NoRandomUUID r \<Rightarrow>
                         (let (now, k') = Date_now clk k
                          in (number_to_string now @ ''-'' @ r, k')));
          (created, k2) = Date_now clk k1;
          (updated, k3) = Date_now clk k2
      in (\<lparr>note_id = i, title = t, content = c, category = cat,
            createdAt = created, updatedAt = updated,
            archived = (cat = ''Archive'')\<rparr>, k3))"

definition sortNotesByUpdatedAtDesc :: "Note \<Rightarrow> Note \<Rightarrow> int" where
  "sortNotesByUpdatedAtDesc a b = updatedAt b - updatedAt a"

text \<open>
  \<^verbatim>\<open>Array.prototype.sort\<close> with a comparator: a stable sort, here by insertion. An element
  is placed before the first element it does not compare greater than.
\<close>

fun insert_by :: "('a \<Rightarrow> 'a \<Rightarrow> int) \<Rightarrow> 'a \<Rightarrow> 'a list \<Rightarrow> 'a list" where
  "insert_by cmp x [] = [x]"
| "insert_by cmp x (y # ys) =
     (if cmp x y \<le> 0 then x # y # ys else y # insert_by cmp x ys)"

fun array_sort :: "('a \<Rightarrow> 'a \<Rightarrow> int) \<Rightarrow> 'a list \<Rightarrow> 'a list" where
  "array_sort cmp [] = []"
| "array_sort cmp (x # xs) = insert_by cmp x (array_sort cmp xs)"

subsection \<open>Derived data\<close>

definition filteredNotes :: "Note list \<Rightarrow> string \<Rightarrow> string \<Rightarrow> Note list" where
  "filteredNotes ns active query =
     (let list1 =
            (if active \<noteq> '''' \<and> active \<noteq> ''All Notes'' then
               (if active = ''Archive'' then filter (\<lambda>n. archived n) ns
                else filter (\<lambda>n. category n = active \<and> \<not> archived n) ns)
             else filter (\<lambda>n. \<not> archived n) ns);
          list2 =
            (if trim query \<noteq> '''' then
               (let q = toLowerCase query
                in filter (\<lambda>n. includes_str (toLowerCase (title n)) q
                              \<or> includes_str (toLowerCase (content n)) q) list1)
             else list1)
      in array_sort sortNotesByUpdatedAtDesc list2)"

definition selectedNote :: "app \<Rightarrow> Note option" where
  "selectedNote s = find (\<lambda>n. Some (note_id n) = selectedNoteId s) (notes_list s)"

subsection \<open>Note actions\<close>

definition handleCreateNote :: "clock \<Rightarrow> crypto \<Rightarrow> string option \<Rightarrow> app \<Rightarrow> app" where
  "handleCreateNote clk cr categoryHint s =
     (let cat = (case categoryHint of
                   None \<Rightarrow> ''Personal''
                 | Some h \<Rightarrow> (if h \<noteq> '''' \<and> h \<noteq> ''All Notes'' then h else ''Personal''));
          (n, k) = createNote clk cr (Some ''Untitled note'') (Some '''') (Some cat) (ticks s)
      in s\<lparr>notes_list := n # notes_list s,
           selectedNoteId := Some (note_id n),
           categories := (if cat \<notin> set (categories s) \<and> cat \<noteq> ''Archive''
                          then categories s @ [cat] else categories s),
           ticks := k\<rparr>)"

text \<open>
  \<^verbatim>\<open>prev.map((n) => (p(n) ? f(n, Date.now()) : n))\<close>: the clock is read once for every
  element that is rewritten, in list order.
\<close>

fun map_now ::
  "clock \<Rightarrow> (Note \<Rightarrow> bool) \<Rightarrow> (Note \<Rightarrow> int \<Rightarrow> Note) \<Rightarrow> Note list \<Rightarrow> nat \<Rightarrow> Note list \<times> nat"
where
  "map_now clk p f [] k = ([], k)"
| "map_now clk p f (n # ns) k =
     (if p n then
        (let (now, k1) = Date_now clk k; (ns', k2) = map_now clk p f ns k1
         in (f n now # ns', k2))
      else
        (let (ns', k2) = map_now clk p f ns k in (n # ns', k2)))"

text \<open>\<^verbatim>\<open>{ ...n, ...fields, updatedAt: now }\<close>\<close>

definition spread :: "Note \<Rightarrow> fields \<Rightarrow> int \<Rightarrow> Note" where
  "spread n fs now =
     \<lparr>note_id = (case set_id fs of None \<Rightarrow> note_id n | Some v \<Rightarrow> v),
      title = (case set_title fs of None \<Rightarrow> title n | Some v \<Rightarrow> v),
      content = (case set_content fs of None \<Rightarrow> content n | Some v \<Rightarrow> v),
      category = (case set_category fs of None \<Rightarrow> category n | Some v \<Rightarrow> v),
      createdAt = (case set_createdAt fs of None \<Rightarrow> createdAt n | Some v \<Rightarrow> v),
      updatedAt = now,
      archived = (case set_archived fs of None \<Rightarrow> archived n | Some v \<Rightarrow> v)\<rparr>"

definition handleUpdateNote :: "clock \<Rightarrow> string \<Rightarrow> fields \<Rightarrow> app \<Rightarrow> app" where
  "handleUpdateNote clk i fs s =
     (let (ns, k) = map_now clk (\<lambda>n. note_id n = i) (\<lambda>n now. spread n fs now)
                      (notes_list s) (ticks s)
      in s\<lparr>notes_list := ns, ticks := k\<rparr>)"

definition handleDeleteNote :: "string \<Rightarrow> app \<Rightarrow> app" where
  "handleDeleteNote i s =
     s\<lparr>notes_list := filter (\<lambda>n. note_id n \<noteq> i) (notes_list s),
       selectedNoteId := (if selectedNoteId s = Some i then None else selectedNoteId s)\<rparr>"

definition toggleArchived :: "Note \<Rightarrow> int \<Rightarrow> Note" where
  "toggleArchived n now =
     n\<lparr>archived := \<not> archived n,
       category := (if \<not> archived n then ''Archive''
                    else if category n \<noteq> '''' then category n else ''Personal''),
       updatedAt := now\<rparr>"

definition handleArchiveToggle :: "clock \<Rightarrow> string \<Rightarrow> app \<Rightarrow> app" where
  "handleArchiveToggle clk i s =
     (let (ns, k) = map_now clk (\<lambda>n. note_id n = i) toggleArchived (notes_list s) (ticks s)
      in s\<lparr>notes_list := ns, ticks := k\<rparr>)"

subsection \<open>Category actions\<close>

definition addCategory :: "string \<Rightarrow> app \<Rightarrow> app" where
  "addCategory name s =
     (let trimmed = trim name
      in if trimmed = '''' then s
         else if trimmed \<in> set (categories s) then s
         else s\<lparr>categories := categories s @ [trimmed], newCategoryName := ''''\<rparr>)"

definition renameCategory :: "string \<Rightarrow> string \<Rightarrow> app \<Rightarrow> app" where
  "renameCategory oldName newName s =
     (let trimmed = trim newName
      in if trimmed = '''' \<or> oldName \<in> set [''All Notes'', ''Archive''] then s
         else if trimmed \<in> set (categories s) then s
         else s\<lparr>categories := map (\<lambda>c. if c = oldName then trimmed else c) (categories s),
                notes_list := map (\<lambda>n. if category n = oldName then n\<lparr>category := trimmed\<rparr> else n)
                           (notes_list s),
                activeCategory := (if activeCategory s = oldName then trimmed
                                   else activeCategory s)\<rparr>)"

definition deleteCategory :: "string \<Rightarrow> app \<Rightarrow> app" where
  "deleteCategory name s =
     (if name \<in> set [''All Notes'', ''Archive''] then s
      else s\<lparr>categories := filter (\<lambda>c. c \<noteq> name) (categories s),
             notes_list := map (\<lambda>n. if category n = name then n\<lparr>category := ''Personal''\<rparr> else n)
                        (notes_list s),
             activeCategory := (if activeCategory s = name then ''All Notes''
                                else activeCategory s)\<rparr>)"

subsection \<open>Sequences of user actions\<close>

datatype action =
    CreateNote crypto "string option"
  | UpdateNote string fields
  | DeleteNote string
  | ArchiveToggle string
  | AddCategory string
  | RenameCategory string string
  | DeleteCategory string
  | SelectCategory string
  | SelectNote "string option"
  | SetSearchQuery string
  | SetNewCategoryName string

fun perform :: "clock \<Rightarrow> action \<Rightarrow> app \<Rightarrow> app" where
  "perform clk (CreateNote cr hint) s = handleCreateNote clk cr hint s"
| "perform clk (UpdateNote i fs) s = handleUpdateNote clk i fs s"
| "perform clk (DeleteNote i) s = handleDeleteNote i s"
| "perform clk (ArchiveToggle i) s = handleArchiveToggle clk i s"
| "perform clk (AddCategory name) s = addCategory name s"
| "perform clk (RenameCategory oldName newName) s = renameCategory oldName newName s"
| "perform clk (DeleteCategory name) s = deleteCategory name s"
| "perform clk (SelectCategory c) s = s\<lparr>activeCategory := c\<rparr>"
| "perform clk (SelectNote i) s = s\<lparr>selectedNoteId := i\<rparr>"
| "perform clk (SetSearchQuery q) s = s\<lparr>searchQuery := q\<rparr>"
| "perform clk (SetNewCategoryName v) s = s\<lparr>newCategoryName := v\<rparr>"

fun run :: "clock \<Rightarrow> action list \<Rightarrow> app \<Rightarrow> app" where
  "run clk [] s = s"
| "run clk (a # as) s = run clk as (perform clk a s)"

subsection \<open>Presentation of a title\<close>

text \<open>The note card of \<^verbatim>\<open>NoteList\<close> renders \<^verbatim>\<open>n.title || 'Untitled note'\<close>.\<close>

definition cardTitle :: "Note \<Rightarrow> string" where
  "cardTitle n = (if title n \<noteq> '''' then title n else ''Untitled note'')"

subsection \<open>Predicates used in the statements\<close>

text \<open>
  The update operation of the Note Repository patches the title, the content and the
  category of a note: such a patch carries no other property.
\<close>

definition fieldPatch :: "fields \<Rightarrow> bool" where
  "fieldPatch fs =
     (set_id fs = None \<and> set_createdAt fs = None \<and> set_updatedAt fs = None
      \<and> set_archived fs = None)"

fun spec_action :: "action \<Rightarrow> bool" where
  "spec_action (UpdateNote i fs) = fieldPatch fs"
| "spec_action a = True"

text \<open>
  Every note was created no later than it was last updated, and no later than the next
  read of the clock.
\<close>

definition stamped :: "clock \<Rightarrow> app \<Rightarrow> bool" where
  "stamped clk s =
     (\<forall>n \<in> set (notes_list s). createdAt n \<le> updatedAt n \<and> createdAt n \<le> clk (ticks s))"

definition guarded :: "app \<Rightarrow> bool" where
  "guarded s = (''All Notes'' \<in> set (categories s) \<and> ''Archive'' \<in> set (categories s))"

subsection \<open>Sample data\<close>

definition noteA :: Note where
  "noteA = \<lparr>note_id = ''A'', title = ''Shopping'', content = '''', category = ''Archive'',
     createdAt = 1, updatedAt = 5, archived = True\<rparr>"

definition noteB :: Note where
  "noteB = \<lparr>note_id = ''B'', title = ''Budget plan'', content = '''', category = ''Work'',
     createdAt = 2, updatedAt = 3, archived = False\<rparr>"

definition noteC :: Note where
  "noteC = \<lparr>note_id = ''C'', title = ''Travel plan'', content = '''', category = ''Personal'',
     createdAt = 3, updatedAt = 3, archived = False\<rparr>"

definition demo_state :: app where
  "demo_state = \<lparr>categories = DEFAULT_CATEGORIES, activeCategory = ''Work'',
     newCategoryName = '''', notes_list = [noteA, noteB, noteC], searchQuery = '''',
     selectedNoteId = None, ticks = 6\<rparr>"

text \<open>A state in which two notes carry a category that the registry does not list.\<close>

definition orphan_state :: app where
  "orphan_state = \<lparr>categories = [''All Notes'', ''Personal'', ''Archive''],
     activeCategory = ''Work'', newCategoryName = '''', notes_list = [noteB, noteC],
     searchQuery = '''', selectedNoteId = None, ticks = 4\<rparr>"

definition demo_actions :: "action list" where
  "demo_actions =
     [CreateNote (RandomUUID ''n1'') (Some ''Work''),
      UpdateNote ''n1'' \<lparr>set_id = None, set_title = Some ''Plan'', set_content = None,
        set_category = None, set_createdAt = None, set_updatedAt = None, set_archived = None\<rparr>,
      CreateNote (NoRandomUUID ''0.25'') None,
      ArchiveToggle ''n1'',
      RenameCategory ''Work'' '' Job '',
      DeleteCategory ''Ideas'',
      AddCategory ''Travel'',
      DeleteNote ''missing'']"

section \<open>Auxiliary facts\<close>

subsection \<open>Mapping over the notes while reading the clock\<close>

lemma fst_map_now_Cons [simp]:
  "fst (map_now clk p f (n # ns) k) =
     (if p n then f n (clk k) # fst (map_now clk p f ns (Suc k))
      else n # fst (map_now clk p f ns k))"
  by (simp add: Date_now_def split: prod.splits)

lemma snd_map_now_Cons [simp]:
  "snd (map_now clk p f (n # ns) k) =
     (if p n then snd (map_now clk p f ns (Suc k)) else snd (map_now clk p f ns k))"
  by (simp add: Date_now_def split: prod.splits)

declare map_now.simps(2) [simp del]

lemma snd_map_now_ge: "k \<le> snd (map_now clk p f ns k)"
proof (induction ns arbitrary: k)
  case Nil
  show ?case by simp
next
  case (Cons n ns)
  have "Suc k \<le> snd (map_now clk p f ns (Suc k))" by (rule Cons.IH)
  moreover have "k \<le> snd (map_now clk p f ns k)" by (rule Cons.IH)
  ultimately show ?case by simp
qed

lemma notes_handleArchiveToggle:
  "notes_list (handleArchiveToggle clk i s) =
     fst (map_now clk (\<lambda>n. note_id n = i) toggleArchived (notes_list s) (ticks s))"
  by (simp add: handleArchiveToggle_def split: prod.splits)

lemma ticks_handleArchiveToggle:
  "ticks (handleArchiveToggle clk i s) =
     snd (map_now clk (\<lambda>n. note_id n = i) toggleArchived (notes_list s) (ticks s))"
  by (simp add: handleArchiveToggle_def split: prod.splits)

lemma notes_handleUpdateNote:
  "notes_list (handleUpdateNote clk i fs s) =
     fst (map_now clk (\<lambda>n. note_id n = i) (\<lambda>n now. spread n fs now) (notes_list s) (ticks s))"
  by (simp add: handleUpdateNote_def split: prod.splits)

lemma ticks_handleUpdateNote:
  "ticks (handleUpdateNote clk i fs s) =
     snd (map_now clk (\<lambda>n. note_id n = i) (\<lambda>n now. spread n fs now) (notes_list s) (ticks s))"
  by (simp add: handleUpdateNote_def split: prod.splits)

text \<open>Two passes of the archive toggle over a list, from any two read counts.\<close>

lemma toggle_twice_list:
  "list_all2
     (\<lambda>n n'. archived n' = archived n \<and> note_id n' = note_id n \<and> title n' = title n
            \<and> content n' = content n \<and> createdAt n' = createdAt n
            \<and> (if note_id n = i then category n' = ''Archive'' else n' = n))
     ns
     (fst (map_now clk (\<lambda>n. note_id n = i) toggleArchived
        (fst (map_now clk (\<lambda>n. note_id n = i) toggleArchived ns k)) k'))"
proof (induction ns arbitrary: k k')
  case Nil
  show ?case by simp
next
  case (Cons n ns)
  show ?case
  proof (cases "note_id n = i")
    case True
    then show ?thesis using Cons.IH [of "Suc k" "Suc k'"]
      by (simp add: toggleArchived_def)
  next
    case False
    then show ?thesis using Cons.IH [of k k'] by simp
  qed
qed

subsection \<open>Creating a note\<close>

lemma createNote_stamps:
  "\<exists>j \<ge> k. createdAt (fst (createNote clk cr t c cat k)) = clk j
     \<and> updatedAt (fst (createNote clk cr t c cat k)) = clk (Suc j)
     \<and> snd (createNote clk cr t c cat k) = Suc (Suc j)"
  by (cases cr) (auto simp: createNote_def Date_now_def Let_def)

lemma createNote_fields:
  "title (fst (createNote clk cr (Some t) c cat k)) = t
   \<and> category (fst (createNote clk cr t' c (Some g) k)) = g
   \<and> archived (fst (createNote clk cr t' c (Some g) k)) = (g = ''Archive'')
   \<and> title (fst (createNote clk cr None c cat k)) = ''''"
  by (cases cr) (simp_all add: createNote_def Date_now_def Let_def)

lemma notes_handleCreateNote:
  "notes_list (handleCreateNote clk cr hint s) =
     fst (createNote clk cr (Some ''Untitled note'') (Some '''')
       (Some (case hint of None \<Rightarrow> ''Personal''
              | Some h \<Rightarrow> if h \<noteq> '''' \<and> h \<noteq> ''All Notes'' then h else ''Personal''))
       (ticks s)) # notes_list s"
  by (simp add: handleCreateNote_def Let_def split: prod.splits)

lemma ticks_handleCreateNote:
  "ticks (handleCreateNote clk cr hint s) =
     snd (createNote clk cr (Some ''Untitled note'') (Some '''')
       (Some (case hint of None \<Rightarrow> ''Personal''
              | Some h \<Rightarrow> if h \<noteq> '''' \<and> h \<noteq> ''All Notes'' then h else ''Personal''))
       (ticks s))"
  by (simp add: handleCreateNote_def Let_def split: prod.splits)

subsection \<open>The stable sort\<close>

lemma set_insert_by [simp]: "set (insert_by cmp x ys) = insert x (set ys)"
  by (induction ys) auto

lemma set_array_sort [simp]: "set (array_sort cmp xs) = set xs"
  by (induction xs) auto

lemma sorted_insert_by:
  "sorted_wrt (\<lambda>a b. updatedAt b \<le> updatedAt a) ys \<Longrightarrow>
   sorted_wrt (\<lambda>a b. updatedAt b \<le> updatedAt a) (insert_by sortNotesByUpdatedAtDesc x ys)"
  by (induction ys) (auto simp: sortNotesByUpdatedAtDesc_def)

lemma sorted_array_sort:
  "sorted_wrt (\<lambda>a b. updatedAt b \<le> updatedAt a) (array_sort sortNotesByUpdatedAtDesc xs)"
  by (induction xs) (auto intro: sorted_insert_by)

lemma filter_insert_by:
  "filter (\<lambda>n. updatedAt n = t) (insert_by sortNotesByUpdatedAtDesc x ys) =
   filter (\<lambda>n. updatedAt n = t) (x # ys)"
  by (induction ys) (auto simp: sortNotesByUpdatedAtDesc_def)

lemma filter_array_sort:
  "filter (\<lambda>n. updatedAt n = t) (array_sort sortNotesByUpdatedAtDesc xs) =
   filter (\<lambda>n. updatedAt n = t) xs"
  by (induction xs) (auto simp: filter_insert_by)

lemma filteredNotes_sort_filter:
  "\<exists>P. filteredNotes ns active query = array_sort sortNotesByUpdatedAtDesc (filter P ns)"
  by (auto simp: filteredNotes_def Let_def)

subsection \<open>Timestamps along a run\<close>

lemma map_now_stamped:
  assumes "mono clk"
    and "\<And>n t. createdAt (f n t) = createdAt n \<and> updatedAt (f n t) = t"
  shows "(\<forall>n \<in> set ns. createdAt n \<le> updatedAt n \<and> createdAt n \<le> clk k) \<Longrightarrow>
         (\<forall>n \<in> set (fst (map_now clk p f ns k)).
            createdAt n \<le> updatedAt n \<and> createdAt n \<le> clk (snd (map_now clk p f ns k)))"
proof (induction ns arbitrary: k)
  case Nil
  show ?case by simp
next
  case (Cons n ns)
  have step: "clk k \<le> clk (Suc k)" using assms(1) by (simp add: monoD)
  have far: "clk j \<le> clk (snd (map_now clk p f ns j))" for j
    using assms(1) snd_map_now_ge [of j clk p f ns] by (rule monoD)
  have n: "createdAt n \<le> updatedAt n" "createdAt n \<le> clk k" using Cons.prems by simp_all
  show ?case
  proof (cases "p n")
    case True
    have "\<forall>m \<in> set ns. createdAt m \<le> updatedAt m \<and> createdAt m \<le> clk (Suc k)"
      using Cons.prems step by fastforce
    from Cons.IH [OF this] show ?thesis
      using True n step far [of "Suc k"] assms(2) by auto
  next
    case False
    have "\<forall>m \<in> set ns. createdAt m \<le> updatedAt m \<and> createdAt m \<le> clk k"
      using Cons.prems by simp
    from Cons.IH [OF this] show ?thesis
      using False n far [of k] by auto
  qed
qed

lemma stamped_create:
  assumes "mono clk" "stamped clk s"
  shows "stamped clk (handleCreateNote clk cr hint s)"
proof -
  let ?c = "createNote clk cr (Some ''Untitled note'') (Some '''')
       (Some (case hint of None \<Rightarrow> ''Personal''
              | Some h \<Rightarrow> if h \<noteq> '''' \<and> h \<noteq> ''All Notes'' then h else ''Personal''))
       (ticks s)"
  obtain j where j: "ticks s \<le> j" "createdAt (fst ?c) = clk j"
      "updatedAt (fst ?c) = clk (Suc j)" "snd ?c = Suc (Suc j)"
    using createNote_stamps by blast
  have a: "clk j \<le> clk (Suc j)" "clk j \<le> clk (Suc (Suc j))" "clk (ticks s) \<le> clk (Suc (Suc j))"
    using assms(1) j(1) by (simp_all add: monoD)
  show ?thesis
    unfolding stamped_def notes_handleCreateNote ticks_handleCreateNote
    using assms(2) j a by (fastforce simp: stamped_def)
qed

lemma stamped_update:
  assumes "mono clk" "stamped clk s" "fieldPatch fs"
  shows "stamped clk (handleUpdateNote clk i fs s)"
  unfolding stamped_def notes_handleUpdateNote ticks_handleUpdateNote
  using assms(2,3)
  by (intro map_now_stamped [OF assms(1)]) (simp_all add: stamped_def spread_def fieldPatch_def)

lemma stamped_toggle:
  assumes "mono clk" "stamped clk s"
  shows "stamped clk (handleArchiveToggle clk i s)"
  unfolding stamped_def notes_handleArchiveToggle ticks_handleArchiveToggle
  using assms(2)
  by (intro map_now_stamped [OF assms(1)]) (simp_all add: stamped_def toggleArchived_def)

lemma stamped_perform:
  assumes "mono clk" "stamped clk s" "spec_action a"
  shows "stamped clk (perform clk a s)"
proof (cases a)
  case (CreateNote cr hint)
  then show ?thesis using assms stamped_create by simp
next
  case (UpdateNote i fs)
  then show ?thesis using assms stamped_update by simp
next
  case (ArchiveToggle i)
  then show ?thesis using assms stamped_toggle by simp
next
  case (DeleteNote i)
  then show ?thesis using assms(2) by (simp add: stamped_def handleDeleteNote_def)
next
  case (AddCategory name)
  then show ?thesis using assms(2) by (simp add: stamped_def addCategory_def Let_def)
next
  case (RenameCategory oldName newName)
  then show ?thesis using assms(2) by (auto simp: stamped_def renameCategory_def Let_def)
next
  case (DeleteCategory name)
  then show ?thesis using assms(2) by (auto simp: stamped_def deleteCategory_def)
qed (use assms(2) in \<open>simp_all add: stamped_def\<close>)

lemma stamped_run:
  "mono clk \<Longrightarrow> stamped clk s \<Longrightarrow> list_all spec_action as \<Longrightarrow> stamped clk (run clk as s)"
  by (induction as arbitrary: s) (simp_all add: stamped_perform)

subsection \<open>The protected names along a run\<close>

lemma guarded_perform: "guarded s \<Longrightarrow> guarded (perform clk a s)"
proof (cases a)
  case (CreateNote cr hint)
  assume "guarded s"
  then show ?thesis using CreateNote
    by (simp add: guarded_def handleCreateNote_def Let_def split: prod.splits)
next
  case (UpdateNote i fs)
  assume "guarded s"
  then show ?thesis using UpdateNote
    by (simp add: guarded_def handleUpdateNote_def split: prod.splits)
next
  case (DeleteNote i)
  assume "guarded s"
  then show ?thesis using DeleteNote by (simp add: guarded_def handleDeleteNote_def)
next
  case (ArchiveToggle i)
  assume "guarded s"
  then show ?thesis using ArchiveToggle
    by (simp add: guarded_def handleArchiveToggle_def split: prod.splits)
next
  case (AddCategory name)
  assume "guarded s"
  then show ?thesis using AddCategory by (simp add: guarded_def addCategory_def Let_def)
next
  case (RenameCategory oldName newName)
  assume "guarded s"
  then show ?thesis using RenameCategory
    by (auto simp: guarded_def renameCategory_def Let_def image_iff)
next
  case (DeleteCategory name)
  assume "guarded s"
  then show ?thesis using DeleteCategory by (auto simp: guarded_def deleteCategory_def)
qed (simp_all add: guarded_def)

lemma guarded_run: "guarded s \<Longrightarrow> guarded (run clk as s)"
  by (induction as arbitrary: s) (simp_all add: guarded_perform)

lemma trim_Job: "trim '' Job'' = ''Job''"
  by code_simp

text \<open>The no-break space is stripped like the other white space.\<close>

lemma trim_no_break_space:
  "trim [CHR 0xA0] = '''' \<and> trim (CHR 0xA0 # ''Ideas'' @ [CHR 0xA0, CHR 0x09]) = ''Ideas''"
  by code_simp

lemma rename_to_no_break_space: "renameCategory ''Work'' [CHR 0xA0] demo_state = demo_state"
proof -
  have "trim [CHR 0xA0] = ''''" by code_simp
  then show ?thesis by (simp add: renameCategory_def)
qed

lemma toLowerCase_sample:
  "toLowerCase [CHR 0x41, CHR 0xC9, CHR 0xD7, CHR 0xDE, CHR 0xDF, CHR 0x7A] =
     [CHR 0x61, CHR 0xE9, CHR 0xD7, CHR 0xFE, CHR 0xDF, CHR 0x7A]"
  by code_simp

section \<open>The properties of the specification\<close>

subsection \<open>Archiving\<close>

text \<open>
  C1: toggling archive twice on a note, with nothing in between, restores its original
  category and leaves it not archived. The handler leaves the note not archived but does
  not restore the category. Archiving overwrites the category with \<open>Archive\<close>; unarchiving
  evaluates \<^verbatim>\<open>n.category || 'Personal'\<close>, which is meant to give the note a category to
  live under again, and finds the \<open>Archive\<close> that the first toggle wrote. Note \<open>B\<close> of the
  sample state, in \<open>Work\<close> and not archived, ends not archived with the category
  \<open>Archive\<close>: a combination that \<^verbatim>\<open>createNote\<close> never produces and that no category
  view shows.
\<close>

theorem toggle_twice_loses_category:
  "map category (notes_list demo_state) = [''Archive'', ''Work'', ''Personal'']
   \<and> map archived (notes_list demo_state) = [True, False, False]
   \<and> map category (notes_list
         (handleArchiveToggle int ''B'' (handleArchiveToggle int ''B'' demo_state)))
       = [''Archive'', ''Archive'', ''Personal'']
   \<and> map archived (notes_list
         (handleArchiveToggle int ''B'' (handleArchiveToggle int ''B'' demo_state)))
       = [True, False, False]
   \<and> map category (notes_list
         (handleArchiveToggle int ''B'' (handleArchiveToggle int ''B'' demo_state)))
       \<noteq> map category (notes_list demo_state)
   \<and> filteredNotes (notes_list
         (handleArchiveToggle int ''B'' (handleArchiveToggle int ''B'' demo_state)))
         ''Work'' '''' = []
   \<and> filteredNotes (notes_list
         (handleArchiveToggle int ''B'' (handleArchiveToggle int ''B'' demo_state)))
         ''Archive'' '''' = [noteA]"
  by code_simp

text \<open>
  The defect does not depend on the sample: after two toggles with the same id every note
  with that id carries the category \<open>Archive\<close>, whatever it carried before, while its
  \<open>archived\<close> flag, id, title, content and creation time are back as they were, and the
  other notes are untouched. The fallback to \<open>Personal\<close> is taken only by an archived note
  whose category is empty.
\<close>

lemma toggle_twice_behaviour:
  "list_all2
     (\<lambda>n n'. archived n' = archived n \<and> note_id n' = note_id n \<and> title n' = title n
            \<and> content n' = content n \<and> createdAt n' = createdAt n
            \<and> (if note_id n = i then category n' = ''Archive'' else n' = n))
     (notes_list s)
     (notes_list (handleArchiveToggle clk i (handleArchiveToggle clk i s)))
   \<and> \<not> archived (toggleArchived (n\<lparr>archived := True\<rparr>) t)
   \<and> category (toggleArchived (n\<lparr>archived := True\<rparr>) t) =
       (if category n = '''' then ''Personal'' else category n)"
proof -
  have "list_all2
     (\<lambda>n n'. archived n' = archived n \<and> note_id n' = note_id n \<and> title n' = title n
            \<and> content n' = content n \<and> createdAt n' = createdAt n
            \<and> (if note_id n = i then category n' = ''Archive'' else n' = n))
     (notes_list s)
     (notes_list (handleArchiveToggle clk i (handleArchiveToggle clk i s)))"
    unfolding notes_handleArchiveToggle by (rule toggle_twice_list)
  then show ?thesis by (simp add: toggleArchived_def)
qed

subsection \<open>The view\<close>

text \<open>
  C2: whatever the notes, the active category and the search query, the view holds no
  archived note unless the active category is \<open>Archive\<close>, and under \<open>Archive\<close> it holds
  only archived notes.
\<close>

theorem filteredNotes_archived_split:
  "\<forall>n \<in> set (filteredNotes ns active query).
     (active \<noteq> ''Archive'' \<longrightarrow> \<not> archived n) \<and> (active = ''Archive'' \<longrightarrow> archived n)"
  by (auto simp: filteredNotes_def Let_def)

text \<open>Note \<open>A\<close> is in the \<open>Archive\<close> view and archived; note \<open>B\<close> is in the \<open>Work\<close>
  view and not archived.\<close>

theorem filteredNotes_archived_split_witness:
  "noteA \<in> set (filteredNotes [noteA, noteB, noteC] ''Archive'' '''') \<and> archived noteA
   \<and> noteB \<in> set (filteredNotes [noteA, noteB, noteC] ''Work'' '''') \<and> \<not> archived noteB"
proof -
  have a: "noteA \<in> set (filteredNotes [noteA, noteB, noteC] ''Archive'' '''')"
    by code_simp
  have b: "noteB \<in> set (filteredNotes [noteA, noteB, noteC] ''Work'' '''')"
    by code_simp
  from a filteredNotes_archived_split [of "[noteA, noteB, noteC]" "''Archive''" "''''"]
  have "archived noteA" by (simp add: noteA_def)
  moreover
  from b filteredNotes_archived_split [of "[noteA, noteB, noteC]" "''Work''" "''''"]
  have "\<not> archived noteB" by (simp add: noteB_def)
  ultimately show ?thesis using a b by simp
qed

text \<open>
  C8: the view is a function of the notes, the active category and the search query and of
  nothing else (it takes no clock and no state), so equal inputs give equal outputs. Its
  result is in descending order of \<open>updatedAt\<close>, and for every timestamp \<open>t\<close> the notes
  of the result that carry \<open>t\<close> are the selected notes of the collection that carry \<open>t\<close>,
  in the order of the collection.
\<close>

theorem filteredNotes_sorted_stable:
  "sorted_wrt (\<lambda>a b. updatedAt b \<le> updatedAt a) (filteredNotes ns active query)
   \<and> filter (\<lambda>n. updatedAt n = t) (filteredNotes ns active query) =
       filter (\<lambda>n. updatedAt n = t \<and> n \<in> set (filteredNotes ns active query)) ns"
proof -
  obtain P where P: "filteredNotes ns active query =
      array_sort sortNotesByUpdatedAtDesc (filter P ns)"
    using filteredNotes_sort_filter by blast
  have "filter (\<lambda>n. updatedAt n = t \<and> n \<in> set (filter P ns)) ns =
        filter (\<lambda>n. updatedAt n = t) (filter P ns)"
    by (auto intro: filter_cong)
  then show ?thesis
    by (simp add: P sorted_array_sort filter_array_sort)
qed

subsection \<open>Timestamps\<close>

text \<open>
  C3: start with no notes and let the clock never go back. After any sequence of actions
  (creating, updating with a patch of title, content and category, deleting, toggling
  archive, adding, renaming and deleting categories, and the selections of the interface)
  every note has \<open>updatedAt \<ge> createdAt\<close>.
\<close>

theorem updatedAt_ge_createdAt:
  assumes "mono clk" and "notes_list s = []" and "list_all spec_action as"
  shows "\<forall>n \<in> set (notes_list (run clk as s)). createdAt n \<le> updatedAt n"
proof -
  have "stamped clk s" using assms(2) by (simp add: stamped_def)
  then have "stamped clk (run clk as s)" using assms(1,3) by (simp add: stamped_run)
  then show ?thesis by (simp add: stamped_def)
qed

text \<open>The sample run of eight actions, on the clock that reads 0, 1, 2, ...\<close>

theorem updatedAt_ge_createdAt_witness:
  "mono int \<and> notes_list initial = [] \<and> list_all spec_action demo_actions
   \<and> notes_list (run int demo_actions initial) \<noteq> []
   \<and> createdAt (hd (notes_list (run int demo_actions initial)))
       \<le> updatedAt (hd (notes_list (run int demo_actions initial)))"
proof -
  have m: "mono int" by (simp add: mono_def)
  have e: "notes_list initial = []" by (simp add: initial_def)
  have a: "list_all spec_action demo_actions" by (simp add: demo_actions_def fieldPatch_def)
  have ne: "notes_list (run int demo_actions initial) \<noteq> []" by code_simp
  then have "hd (notes_list (run int demo_actions initial))
      \<in> set (notes_list (run int demo_actions initial))" by simp
  with updatedAt_ge_createdAt [OF m e a] show ?thesis using m e a ne by blast
qed

subsection \<open>Renaming a category\<close>

text \<open>
  C4: renaming a category to a name that, once trimmed, is already in the registry is
  rejected: the state is returned as it was, so the category list, every note and the active
  view are unchanged.
\<close>

theorem rename_to_existing_rejected:
  "trim newName \<in> set (categories s) \<Longrightarrow> renameCategory oldName newName s = s"
  by (simp add: renameCategory_def Let_def)

theorem rename_to_existing_rejected_witness:
  "trim '' Ideas '' \<in> set (categories initial)
   \<and> renameCategory ''Work'' '' Ideas '' initial = initial"
proof -
  have h: "trim '' Ideas '' \<in> set (categories initial)" by code_simp
  from rename_to_existing_rejected [OF h] h show ?thesis by simp
qed

text \<open>
  C5: a rename that is not rejected (the trimmed new name is not empty and not in the
  registry, the old name is not protected) sets the category of exactly the notes whose
  category is the old name to the trimmed new name and changes nothing else of any note; the
  \<open>updatedAt\<close> of every note is as before, and the clock is not read.
\<close>

theorem rename_cascade_frame:
  assumes "trim newName \<noteq> ''''" and "oldName \<noteq> ''All Notes''" and "oldName \<noteq> ''Archive''"
    and "trim newName \<notin> set (categories s)"
  shows "notes_list (renameCategory oldName newName s) =
           map (\<lambda>n. if category n = oldName then n\<lparr>category := trim newName\<rparr> else n)
             (notes_list s)
         \<and> map updatedAt (notes_list (renameCategory oldName newName s)) =
             map updatedAt (notes_list s)
         \<and> ticks (renameCategory oldName newName s) = ticks s"
  using assms by (simp add: renameCategory_def Let_def comp_def if_distrib [of updatedAt])

theorem rename_cascade_frame_witness:
  "trim '' Job'' \<noteq> '''' \<and> trim '' Job'' \<notin> set (categories demo_state)
   \<and> notes_list (renameCategory ''Work'' '' Job'' demo_state) =
       [noteA, noteB\<lparr>category := ''Job''\<rparr>, noteC]
   \<and> map updatedAt (notes_list (renameCategory ''Work'' '' Job'' demo_state)) = [5, 3, 3]"
proof -
  have h1: "trim '' Job'' \<noteq> ''''" by (simp add: trim_Job)
  have h2: "''Work'' \<noteq> ''All Notes''" "''Work'' \<noteq> ''Archive''" by simp_all
  have h3: "trim '' Job'' \<notin> set (categories demo_state)"
    by (simp add: trim_Job demo_state_def DEFAULT_CATEGORIES_def)
  from rename_cascade_frame [OF h1 h2 h3] h1 h3 show ?thesis
    by (simp add: trim_Job demo_state_def noteA_def noteB_def noteC_def)
qed

text \<open>
  C10: when the old name is not in the registry and not protected, and the trimmed new name
  is not empty and not in the registry, the rename leaves the category list as it was, still
  moves every note whose category is the old name to the new name, and moves the active view
  to the new name if it was the old name.
\<close>

theorem rename_absent_category:
  assumes "oldName \<notin> set (categories s)"
    and "oldName \<noteq> ''All Notes''" and "oldName \<noteq> ''Archive''"
    and "trim newName \<noteq> ''''" and "trim newName \<notin> set (categories s)"
  shows "categories (renameCategory oldName newName s) = categories s
         \<and> notes_list (renameCategory oldName newName s) =
             map (\<lambda>n. if category n = oldName then n\<lparr>category := trim newName\<rparr> else n)
               (notes_list s)
         \<and> activeCategory (renameCategory oldName newName s) =
             (if activeCategory s = oldName then trim newName else activeCategory s)"
proof -
  have "map (\<lambda>c. if c = oldName then trim newName else c) (categories s) = categories s"
    using assms(1) by (intro map_idI) auto
  then show ?thesis using assms by (simp add: renameCategory_def Let_def)
qed

theorem rename_absent_category_witness:
  "''Work'' \<notin> set (categories orphan_state) \<and> trim '' Job'' \<noteq> ''''
   \<and> trim '' Job'' \<notin> set (categories orphan_state)
   \<and> categories (renameCategory ''Work'' '' Job'' orphan_state) =
       [''All Notes'', ''Personal'', ''Archive'']
   \<and> notes_list (renameCategory ''Work'' '' Job'' orphan_state) =
       [noteB\<lparr>category := ''Job''\<rparr>, noteC]
   \<and> activeCategory (renameCategory ''Work'' '' Job'' orphan_state) = ''Job''"
proof -
  have h0: "''Work'' \<notin> set (categories orphan_state)" by (simp add: orphan_state_def)
  have h1: "trim '' Job'' \<noteq> ''''" by (simp add: trim_Job)
  have h2: "''Work'' \<noteq> ''All Notes''" "''Work'' \<noteq> ''Archive''" by simp_all
  have h3: "trim '' Job'' \<notin> set (categories orphan_state)"
    by (simp add: trim_Job orphan_state_def)
  from rename_absent_category [OF h0 h2 h1 h3] h0 h1 h3 show ?thesis
    by (simp add: trim_Job orphan_state_def noteB_def noteC_def)
qed

subsection \<open>Creating a note\<close>

text \<open>
  C6, as the specification words it: the new note has \<open>createdAt = updatedAt\<close>. The data
  helper reads the clock once for each of the two fields, so on a clock that advances
  between the two reads they differ.
\<close>

theorem create_note_reads_clock_twice:
  "createdAt (hd (notes_list (handleCreateNote int (RandomUUID ''n1'') None initial))) = 0
   \<and> updatedAt (hd (notes_list (handleCreateNote int (RandomUUID ''n1'') None initial))) = 1
   \<and> createdAt (hd (notes_list (handleCreateNote int (RandomUUID ''n1'') None initial)))
       \<noteq> updatedAt (hd (notes_list (handleCreateNote int (RandomUUID ''n1'') None initial)))"
  by code_simp

text \<open>
  C6, amended: creating a note puts one new note in front of the collection. With the hint
  unset, empty or \<open>All Notes\<close> its category is \<open>Personal\<close> and it is not archived; with
  the hint \<open>Archive\<close> it is archived. In all cases \<open>createdAt\<close> and \<open>updatedAt\<close> are two
  successive reads of the clock, so \<open>createdAt \<le> updatedAt\<close> on a clock that never goes
  back, with equality when the two reads return the same value.
\<close>

theorem create_note_defaults:
  "notes_list (handleCreateNote clk cr hint s) =
     hd (notes_list (handleCreateNote clk cr hint s)) # notes_list s
   \<and> (hint = None \<or> hint = Some '''' \<or> hint = Some ''All Notes'' \<longrightarrow>
        category (hd (notes_list (handleCreateNote clk cr hint s))) = ''Personal''
        \<and> \<not> archived (hd (notes_list (handleCreateNote clk cr hint s))))
   \<and> (hint = Some ''Archive'' \<longrightarrow>
        category (hd (notes_list (handleCreateNote clk cr hint s))) = ''Archive''
        \<and> archived (hd (notes_list (handleCreateNote clk cr hint s))))
   \<and> (\<exists>j. ticks s \<le> j
        \<and> createdAt (hd (notes_list (handleCreateNote clk cr hint s))) = clk j
        \<and> updatedAt (hd (notes_list (handleCreateNote clk cr hint s))) = clk (Suc j))
   \<and> (mono clk \<longrightarrow>
        createdAt (hd (notes_list (handleCreateNote clk cr hint s)))
          \<le> updatedAt (hd (notes_list (handleCreateNote clk cr hint s))))"
proof -
  let ?g = "case hint of None \<Rightarrow> ''Personal''
              | Some h \<Rightarrow> if h \<noteq> '''' \<and> h \<noteq> ''All Notes'' then h else ''Personal''"
  let ?c = "createNote clk cr (Some ''Untitled note'') (Some '''') (Some ?g) (ticks s)"
  have hd: "hd (notes_list (handleCreateNote clk cr hint s)) = fst ?c"
    by (simp add: notes_handleCreateNote)
  obtain j where j: "ticks s \<le> j" "createdAt (fst ?c) = clk j"
      "updatedAt (fst ?c) = clk (Suc j)"
    using createNote_stamps by blast
  have le: "mono clk \<longrightarrow> clk j \<le> clk (Suc j)" by (simp add: monoD)
  have cat: "category (fst ?c) = ?g" "archived (fst ?c) = (?g = ''Archive'')"
    using createNote_fields by blast+
  have 1: "notes_list (handleCreateNote clk cr hint s) =
     hd (notes_list (handleCreateNote clk cr hint s)) # notes_list s"
    by (simp add: notes_handleCreateNote)
  have 2: "hint = None \<or> hint = Some '''' \<or> hint = Some ''All Notes'' \<longrightarrow>
        category (fst ?c) = ''Personal'' \<and> \<not> archived (fst ?c)"
    unfolding cat by auto
  have 3: "hint = Some ''Archive'' \<longrightarrow> category (fst ?c) = ''Archive'' \<and> archived (fst ?c)"
    unfolding cat by auto
  have 4: "\<exists>j. ticks s \<le> j \<and> createdAt (fst ?c) = clk j \<and> updatedAt (fst ?c) = clk (Suc j)"
    using j by blast
  have 5: "mono clk \<longrightarrow> createdAt (fst ?c) \<le> updatedAt (fst ?c)"
    using j le by simp
  show ?thesis using 1 2 3 4 5 unfolding hd by blast
qed

theorem create_note_defaults_witness:
  "mono int
   \<and> category (hd (notes_list (handleCreateNote int (RandomUUID ''n1'') None initial)))
       = ''Personal''
   \<and> \<not> archived (hd (notes_list (handleCreateNote int (RandomUUID ''n1'') None initial)))
   \<and> archived (hd (notes_list
       (handleCreateNote int (NoRandomUUID ''0.5'') (Some ''Archive'') initial)))
   \<and> createdAt (hd (notes_list
       (handleCreateNote int (NoRandomUUID ''0.5'') (Some ''Archive'') initial)))
     \<le> updatedAt (hd (notes_list
       (handleCreateNote int (NoRandomUUID ''0.5'') (Some ''Archive'') initial)))"
proof -
  have m: "mono int" by (simp add: mono_def)
  from create_note_defaults [of int "RandomUUID ''n1''" None initial]
       create_note_defaults [of int "NoRandomUUID ''0.5''" "Some ''Archive''" initial] m
  show ?thesis by simp
qed

text \<open>
  C9, as the specification words it: a note made by the create-note action has an empty
  title. The action passes the title \<open>Untitled note\<close> to the data helper, and that text is
  stored.
\<close>

theorem created_title_not_empty:
  "title (hd (notes_list (handleCreateNote int (RandomUUID ''n1'') None initial)))
     = ''Untitled note''
   \<and> title (hd (notes_list (handleCreateNote int (RandomUUID ''n1'') None initial))) \<noteq> ''''"
  by code_simp

text \<open>
  C9, amended: every note made by the create-note action is stored with the title
  \<open>Untitled note\<close>. The empty title is the default of the data helper when no title is
  passed, and the note card also shows \<open>Untitled note\<close> for a note whose title is empty.
\<close>

theorem created_title_is_Untitled_note:
  "notes_list (handleCreateNote clk cr hint s) =
     hd (notes_list (handleCreateNote clk cr hint s)) # notes_list s
   \<and> title (hd (notes_list (handleCreateNote clk cr hint s))) = ''Untitled note''
   \<and> title (fst (createNote clk cr None c cat k)) = ''''
   \<and> cardTitle (n\<lparr>title := ''''\<rparr>) = ''Untitled note''"
  using createNote_fields [of clk cr "''Untitled note''"]
  by (simp add: notes_handleCreateNote cardTitle_def)

subsection \<open>The protected names\<close>

text \<open>
  C7: from the default registry, after any sequence of actions (adding, renaming and
  deleting categories among them), \<open>All Notes\<close> and \<open>Archive\<close> are in the registry;
  renaming or deleting either of them returns the state as it was.
\<close>

theorem protected_names_kept:
  "''All Notes'' \<in> set (categories (run clk as initial))
   \<and> ''Archive'' \<in> set (categories (run clk as initial))
   \<and> renameCategory ''All Notes'' newName s = s \<and> renameCategory ''Archive'' newName s = s
   \<and> deleteCategory ''All Notes'' s = s \<and> deleteCategory ''Archive'' s = s"
proof -
  have "guarded initial" by (simp add: guarded_def initial_def DEFAULT_CATEGORIES_def)
  then have "guarded (run clk as initial)" by (rule guarded_run)
  then show ?thesis
    by (simp add: guarded_def renameCategory_def deleteCategory_def Let_def)
qed

end
